theory Spec2Isabelle
  imports Main "HOL-Library.Word" "HOL-Library.Multiset"
begin

section \<open>Strings\<close>

text \<open>
  A JavaScript string is a sequence of 16-bit code units; the regular expressions of
  \<^verbatim>\<open>app.js\<close> carry no \<^verbatim>\<open>u\<close> flag, so they match code unit by code unit. The
  ASCII literals of the source are written through \<open>js\<close>.
\<close>

type_synonym code_unit = "16 word"
type_synonym jsstring = "code_unit list"

definition js :: "string \<Rightarrow> jsstring" where
  "js s = map (\<lambda>c. of_nat (of_char c)) s"

text \<open>
  \<^verbatim>\<open>a || b\<close> for an optional string \<open>a\<close>: \<^verbatim>\<open>undefined\<close>, \<^verbatim>\<open>null\<close> and the empty string
  are falsy.
\<close>

definition truthy :: "jsstring option \<Rightarrow> bool" where
  "truthy a = (case a of None \<Rightarrow> False | Some s \<Rightarrow> s \<noteq> [])"

definition or_else :: "jsstring option \<Rightarrow> jsstring \<Rightarrow> jsstring" where
  "or_else a b = (case a of None \<Rightarrow> b | Some s \<Rightarrow> if s \<noteq> [] then s else b)"

section \<open>The document payload\<close>

text \<open>
  The JSON payload. A field that may be missing is an option; \<open>witnesses\<close> is \<open>None\<close>
  when the field is missing or is not an array.
\<close>

record Witness =
  id_w :: jsstring
  text_w :: "jsstring option"

record Meta =
  title :: "jsstring option"
  author :: "jsstring option"
  witnesses :: "Witness list option"

record Division =
  n :: "jsstring option"
  type :: "jsstring option"
  html :: "jsstring option"
  commentaryHtml :: "jsstring option"
  apparatusHtml :: "jsstring option"

record DocumentPayload =
  meta :: "Meta option"
  divs :: "Division list"

section \<open>loadBodyJson\<close>

text \<open>
  \<open>window.__BODY__\<close> is any JavaScript value; \<^verbatim>\<open>typeof\<close> gives \<^verbatim>\<open>"object"\<close> for objects
  and for \<^verbatim>\<open>null\<close>. The network is a parameter: \<^verbatim>\<open>fetch\<close> either rejects (\<open>None\<close>) or
  resolves with a response, whose \<^verbatim>\<open>json()\<close> either rejects (\<open>None\<close>) or gives the payload.
  The function returns the requests it made together with its outcome.
\<close>

datatype js_global = Undefined | Null | Object DocumentPayload | Primitive

record Response =
  ok :: bool
  statusText :: jsstring
  json :: "DocumentPayload option"

datatype error = Error jsstring | TypeError | SyntaxError

datatype effect = Fetch jsstring

definition loadBodyJson ::
  "js_global \<Rightarrow> Response option \<Rightarrow> effect list \<times> (error + DocumentPayload)" where
  "loadBodyJson body network =
     (case body of
        Object p \<Rightarrow> ([], Inr p)
      | _ \<Rightarrow>
         ([Fetch (js ''./body.json'')],
          case network of
            None \<Rightarrow> Inl TypeError
          | Some res \<Rightarrow>
              if \<not> ok res then Inl (Error (js ''Failed to fetch body.json: '' @ statusText res))
              else (case json res of None \<Rightarrow> Inl SyntaxError | Some p \<Rightarrow> Inr p)))"

section \<open>sanitizeId\<close>

text \<open>The character class \<^verbatim>\<open>[a-zA-Z0-9.\-_]\<close>.\<close>

definition allowed :: "code_unit \<Rightarrow> bool" where
  "allowed c \<longleftrightarrow>
     (0x61 \<le> c \<and> c \<le> 0x7A) \<or> (0x41 \<le> c \<and> c \<le> 0x5A) \<or> (0x30 \<le> c \<and> c \<le> 0x39)
     \<or> c = 0x2E \<or> c = 0x2D \<or> c = 0x5F"

definition underscore :: code_unit where
  "underscore = 0x5F"

text \<open>
  \<^verbatim>\<open>.replace(/[^a-zA-Z0-9.\-_]+/g, "_")\<close>: scanning from the left, every match of the
  greedy \<^verbatim>\<open>+\<close> is a maximal run of code units outside the class, and the whole run
  becomes one underscore.
\<close>

function replace_runs :: "jsstring \<Rightarrow> jsstring" where
  "replace_runs [] = []"
| "replace_runs (c # cs) =
     (if allowed c then c # replace_runs cs
      else underscore # replace_runs (dropWhile (\<lambda>x. \<not> allowed x) cs))"
  by pat_completeness auto
termination
  by (relation "measure length") (auto simp: le_imp_less_Suc length_dropWhile_le)

text \<open>
  \<^verbatim>\<open>.replace(/^_+|_+$/g, "")\<close>: the underscores at the start of the input and the
  underscores at its end are deleted.
\<close>

definition trim_underscores :: "jsstring \<Rightarrow> jsstring" where
  "trim_underscores s =
     rev (dropWhile (\<lambda>c. c = underscore) (rev (dropWhile (\<lambda>c. c = underscore) s)))"

definition sanitizeId :: "jsstring \<Rightarrow> jsstring" where
  "sanitizeId s = trim_underscores (replace_runs s)"

text \<open>The expression \<^verbatim>\<open>"div_" + sanitizeId(d.n || d.type || "")\<close> of \<^verbatim>\<open>render\<close>.\<close>

definition label :: "Division \<Rightarrow> jsstring" where
  "label d = or_else (n d) (or_else (type d) [])"

definition section_id :: "Division \<Rightarrow> jsstring" where
  "section_id d = js ''div_'' @ sanitizeId (label d)"

text \<open>
  The sanitization as the specification words it: every code unit outside the class
  becomes an underscore of its own, then the ends are trimmed.
\<close>

definition sanitize_per_character :: "jsstring \<Rightarrow> jsstring" where
  "sanitize_per_character s =
     trim_underscores (map (\<lambda>c. if allowed c then c else underscore) s)"

section \<open>The theme toggle\<close>

text \<open>
  The state is the \<^verbatim>\<open>data-theme\<close> attribute of the root element and the \<^verbatim>\<open>theme\<close> key of
  the local storage, each absent or a string.
\<close>

record theme_state =
  data_theme :: "jsstring option"
  stored :: "jsstring option"

definition apply_mode :: "jsstring option \<Rightarrow> theme_state \<Rightarrow> theme_state" where
  "apply_mode mode s =
     (if mode = Some (js ''dark'') then s\<lparr>data_theme := Some (js ''dark'')\<rparr>
      else if mode = Some (js ''light'') then s\<lparr>data_theme := Some (js ''light'')\<rparr>
      else s\<lparr>data_theme := None\<rparr>)"

text \<open>The body of \<^verbatim>\<open>initThemeToggle\<close> before the listener: \<^verbatim>\<open>apply(saved || null)\<close>.\<close>

definition initThemeToggle :: "theme_state \<Rightarrow> theme_state" where
  "initThemeToggle s =
     (let saved = stored s
      in apply_mode (if truthy saved then saved else None) s)"

text \<open>The click listener.\<close>

definition click :: "theme_state \<Rightarrow> theme_state" where
  "click s =
     (let now = data_theme s;
          next = (if now = Some (js ''dark'') then js ''light'' else js ''dark'')
      in (apply_mode (Some next) s)\<lparr>stored := Some next\<rparr>)"

section \<open>The DOM\<close>

text \<open>
  Two kinds of nodes. A \<open>pnode\<close> is a node that the HTML parser made from markup
  (\<^verbatim>\<open>innerHTML = ...\<close>); its elements carry a number, the identity of the node object, by
  which a \<^verbatim>\<open>NodeList\<close> refers to them and \<^verbatim>\<open>appendChild\<close> finds them when it moves them.
  A \<open>node\<close> is an element made by \<^verbatim>\<open>document.createElement\<close>, a text node made by
  \<^verbatim>\<open>textContent = ...\<close>, or a parsed node placed under one of these. The parser itself is a
  parameter: it takes the tag of the context element and the markup.
\<close>

type_synonym attrs = "(jsstring \<times> jsstring) list"

datatype pnode =
  PElement nat jsstring attrs "pnode list"
| PText jsstring
| PComment jsstring

datatype node =
  Element jsstring attrs "node list"
| Text jsstring
| Parsed pnode

type_synonym parser = "jsstring \<Rightarrow> jsstring \<Rightarrow> pnode list"

definition createElement :: "jsstring \<Rightarrow> node" where
  "createElement t = Element t [] []"

fun put :: "jsstring \<Rightarrow> jsstring \<Rightarrow> attrs \<Rightarrow> attrs" where
  "put k v [] = [(k, v)]"
| "put k v ((k', v') # a) = (if k' = k then (k, v) # a else (k', v') # put k v a)"

text \<open>
  \<^verbatim>\<open>el.setAttribute(k, v)\<close>; the assignments \<^verbatim>\<open>el.className = v\<close>, \<^verbatim>\<open>el.id = v\<close>,
  \<^verbatim>\<open>a.href = v\<close> and \<^verbatim>\<open>btn.type = v\<close> set the attributes \<^verbatim>\<open>class\<close>, \<^verbatim>\<open>id\<close>, \<^verbatim>\<open>href\<close> and
  \<^verbatim>\<open>type\<close>.
\<close>

fun setAttribute :: "jsstring \<Rightarrow> jsstring \<Rightarrow> node \<Rightarrow> node" where
  "setAttribute k v (Element t a cs) = Element t (put k v a) cs"
| "setAttribute k v x = x"

fun getAttribute :: "jsstring \<Rightarrow> node \<Rightarrow> jsstring option" where
  "getAttribute k (Element t a cs) = map_of a k"
| "getAttribute k x = None"

text \<open>\<^verbatim>\<open>parent.appendChild(c)\<close> for a node \<open>c\<close> that has no parent yet.\<close>

fun appendChild :: "node \<Rightarrow> node \<Rightarrow> node" where
  "appendChild c (Element t a cs) = Element t a (cs @ [c])"
| "appendChild c x = x"

text \<open>\<^verbatim>\<open>el.textContent = s\<close>: the children become one text node, or none for the empty string.\<close>

fun set_textContent :: "jsstring \<Rightarrow> node \<Rightarrow> node" where
  "set_textContent s (Element t a cs) = Element t a (if s = [] then [] else [Text s])"
| "set_textContent s x = x"

text \<open>\<^verbatim>\<open>el.innerHTML = s\<close>: the children become the parse of \<open>s\<close> in the context of \<open>el\<close>.\<close>

fun set_innerHTML :: "parser \<Rightarrow> jsstring \<Rightarrow> node \<Rightarrow> node" where
  "set_innerHTML parse s (Element t a cs) = Element t a (map Parsed (parse t s))"
| "set_innerHTML parse s x = x"

fun ptextContent :: "pnode \<Rightarrow> jsstring" where
  "ptextContent (PElement i t a cs) = concat (map ptextContent cs)"
| "ptextContent (PText s) = s"
| "ptextContent (PComment s) = []"

fun textContent :: "node \<Rightarrow> jsstring" where
  "textContent (Element t a cs) = concat (map textContent cs)"
| "textContent (Text s) = s"
| "textContent (Parsed p) = ptextContent p"

text \<open>The descendant elements of a list of sibling nodes, in tree order.\<close>

fun elements :: "pnode list \<Rightarrow> (nat \<times> jsstring \<times> attrs) list" where
  "elements [] = []"
| "elements (PElement i t a cs # rest) = (i, t, a) # elements cs @ elements rest"
| "elements (PText s # rest) = elements rest"
| "elements (PComment s # rest) = elements rest"

text \<open>
  \<^verbatim>\<open>tmp.querySelectorAll(sel)\<close> over the children of \<open>tmp\<close>: references to the matching
  descendant elements, in tree order.
\<close>

definition querySelectorAll :: "(jsstring \<Rightarrow> attrs \<Rightarrow> bool) \<Rightarrow> pnode list \<Rightarrow> nat list" where
  "querySelectorAll sel f = map fst (filter (\<lambda>(i, t, a). sel t a) (elements f))"

definition ascii_lower :: "code_unit \<Rightarrow> code_unit" where
  "ascii_lower c = (if 0x41 \<le> c \<and> c \<le> 0x5A then c + 0x20 else c)"

text \<open>
  The selector \<^verbatim>\<open>p[lang="v"]\<close>. The parser has lower-cased tag and attribute names; for
  HTML elements the value of \<^verbatim>\<open>lang\<close> is compared without regard to ASCII case.
\<close>

definition p_lang :: "jsstring \<Rightarrow> jsstring \<Rightarrow> attrs \<Rightarrow> bool" where
  "p_lang v t a \<longleftrightarrow>
     t = js ''p'' \<and>
     (case map_of a (js ''lang'') of
        None \<Rightarrow> False
      | Some x \<Rightarrow> map ascii_lower x = map ascii_lower v)"

text \<open>The node a reference stands for, and a list of siblings without that node.\<close>

fun find_node :: "nat \<Rightarrow> pnode list \<Rightarrow> pnode option" where
  "find_node i [] = None"
| "find_node i (PElement j t a cs # rest) =
     (if j = i then Some (PElement j t a cs)
      else (case find_node i cs of Some p \<Rightarrow> Some p | None \<Rightarrow> find_node i rest))"
| "find_node i (PText s # rest) = find_node i rest"
| "find_node i (PComment s # rest) = find_node i rest"

fun detach :: "nat \<Rightarrow> pnode list \<Rightarrow> pnode list" where
  "detach i [] = []"
| "detach i (PElement j t a cs # rest) =
     (if j = i then detach i rest else PElement j t a (detach i cs) # detach i rest)"
| "detach i (PText s # rest) = PText s # detach i rest"
| "detach i (PComment s # rest) = PComment s # detach i rest"

section \<open>buildDivContent\<close>

text \<open>
  While the two \<^verbatim>\<open>forEach\<close> loops run, the nodes of the parsed markup live under three
  elements: \<open>tmp\<close>, \<open>left\<close> and \<open>right\<close>. The state holds the children of each.
  \<^verbatim>\<open>left.appendChild(p)\<close> takes the node \<open>p\<close>, with what is under it at that moment, out of
  its parent, wherever that is, and makes it the last child of \<open>left\<close>. The references
  come from \<^verbatim>\<open>tmp.querySelectorAll\<close> and nodes only move between the three elements, so a
  reference always stands for a node of the state; the branch \<open>None\<close> is there to make the
  function total.
\<close>

record columns =
  tmp :: "pnode list"
  left :: "pnode list"
  right :: "pnode list"

definition appendChild_left :: "nat \<Rightarrow> columns \<Rightarrow> columns" where
  "appendChild_left i s =
     (case find_node i (tmp s @ left s @ right s) of
        None \<Rightarrow> s
      | Some p \<Rightarrow>
          \<lparr>tmp = detach i (tmp s), left = detach i (left s) @ [p], right = detach i (right s)\<rparr>)"

definition appendChild_right :: "nat \<Rightarrow> columns \<Rightarrow> columns" where
  "appendChild_right i s =
     (case find_node i (tmp s @ left s @ right s) of
        None \<Rightarrow> s
      | Some p \<Rightarrow>
          \<lparr>tmp = detach i (tmp s), left = detach i (left s), right = detach i (right s) @ [p]\<rparr>)"

text \<open>
  The two loops \<^verbatim>\<open>gr.forEach(p => left.appendChild(p))\<close> and
  \<^verbatim>\<open>en.forEach(p => right.appendChild(p))\<close> on the parsed markup \<open>f\<close>; both node lists are
  taken before the first node moves.
\<close>

definition split_columns :: "pnode list \<Rightarrow> columns" where
  "split_columns f =
     (let gr = querySelectorAll (p_lang (js ''grc'')) f;
          en = querySelectorAll (p_lang (js ''en'')) f
      in fold appendChild_right en (fold appendChild_left gr \<lparr>tmp = f, left = [], right = []\<rparr>))"

text \<open>
  \<open>buildDivContent\<close>. The children that the loops gave to \<open>left\<close> and \<open>right\<close> are put under
  the two column elements when the row is assembled.
\<close>

definition buildDivContent :: "parser \<Rightarrow> Division \<Rightarrow> node" where
  "buildDivContent parse d =
     (let f = parse (js ''div'') (or_else (html d) []);
          en = querySelectorAll (p_lang (js ''en'')) f
      in if length en = 0 then
           set_innerHTML parse (or_else (html d) [])
             (setAttribute (js ''class'') (js ''div-html sec-main'') (createElement (js ''div'')))
         else
           (let grid = setAttribute (js ''class'') (js ''div-html bilingual sec-main'')
                         (createElement (js ''div''));
                row = setAttribute (js ''class'') (js ''bi-row bi-two'') (createElement (js ''div''));
                l = setAttribute (js ''class'') (js ''bi-col bi-left'') (createElement (js ''div''));
                r = setAttribute (js ''class'') (js ''bi-col bi-right'') (createElement (js ''div''));
                s = split_columns f;
                l = fold (\<lambda>p. appendChild (Parsed p)) (left s) l;
                r = fold (\<lambda>p. appendChild (Parsed p)) (right s) r;
                row = appendChild r (appendChild l row)
            in appendChild row grid))"

text \<open>
  The reference of a node (none for text and comments), the nodes of a state, and the
  condition that no two elements of a list of siblings are the same object, which holds of
  what a parser returns.
\<close>

definition root_ref :: "pnode \<Rightarrow> nat option" where
  "root_ref p = (case p of PElement i t a cs \<Rightarrow> Some i | _ \<Rightarrow> None)"

definition all_nodes :: "columns \<Rightarrow> pnode list" where
  "all_nodes s = tmp s @ left s @ right s"

definition distinct_nodes :: "pnode list \<Rightarrow> bool" where
  "distinct_nodes f = distinct (map fst (elements f))"

text \<open>An example: a division, its markup and the nodes the parser makes of it.\<close>

definition example_markup :: jsstring where
  \<open>example_markup =
     js ''<p lang="grc">x<button><p lang="en">y</p></button></p><p lang="en">z</p><p>w</p><p lang="grc">v</p>''\<close>

definition example_forest :: "pnode list" where
  "example_forest =
     [PElement 0 (js ''p'') [(js ''lang'', js ''grc'')]
        [PText (js ''x''),
         PElement 1 (js ''button'') []
           [PElement 2 (js ''p'') [(js ''lang'', js ''en'')] [PText (js ''y'')]]],
      PElement 3 (js ''p'') [(js ''lang'', js ''en'')] [PText (js ''z'')],
      PElement 4 (js ''p'') [] [PText (js ''w'')],
      PElement 5 (js ''p'') [(js ''lang'', js ''grc'')] [PText (js ''v'')]]"

definition example_parse :: parser where
  "example_parse t s = (if s = example_markup then example_forest else [])"

definition example_division :: Division where
  "example_division =
     \<lparr>n = Some (js ''1.1''), type = Some (js ''verse''), html = Some example_markup,
      commentaryHtml = None, apparatusHtml = None\<rparr>"

section \<open>render\<close>

text \<open>
  \<^verbatim>\<open>String.prototype.trim\<close> removes white space and line terminators from both ends.
\<close>

definition js_whitespace :: "code_unit \<Rightarrow> bool" where
  "js_whitespace c \<longleftrightarrow>
     c \<in> {0x09, 0x0A, 0x0B, 0x0C, 0x0D, 0x20, 0xA0, 0x1680, 0x2028, 0x2029, 0x202F, 0x205F,
          0x3000, 0xFEFF}
     \<or> (0x2000 \<le> c \<and> c \<le> 0x200A)"

definition trim :: "jsstring \<Rightarrow> jsstring" where
  "trim s = rev (dropWhile js_whitespace (rev (dropWhile js_whitespace s)))"

text \<open>\<^verbatim>\<open>!!(h && h.trim())\<close>\<close>

definition has_content :: "jsstring option \<Rightarrow> bool" where
  "has_content h = (case h of None \<Rightarrow> False | Some s \<Rightarrow> s \<noteq> [] \<and> trim s \<noteq> [])"

text \<open>The first \<^verbatim>\<open>forEach\<close>: the anchor of a division and its entry in \<open>links\<close>.\<close>

definition toc_label :: "Division \<Rightarrow> jsstring" where
  "toc_label d = or_else (n d) (or_else (type d) (js ''div''))"

definition toc_link :: "Division \<Rightarrow> jsstring \<times> node" where
  "toc_link d =
     (let id = js ''div_'' @ sanitizeId (or_else (n d) (or_else (type d) []));
          a = createElement (js ''a'');
          a = setAttribute (js ''href'') (js ''#'' @ id) a;
          a = set_textContent (toc_label d) a
      in (id, a))"

text \<open>
  The second \<^verbatim>\<open>forEach\<close>: the section of a division, together with the toggle button on
  which the click listener \<^verbatim>\<open>() => toggleSection(sec, btn)\<close> is registered, if there is one.
  The dash of the heading is U+2014.
\<close>

definition heading :: "Division \<Rightarrow> jsstring" where
  "heading d =
     (if truthy (n d)
      then or_else (n d) []
           @ (if truthy (type d) then js '' '' @ [0x2014] @ js '' '' @ or_else (type d) [] else [])
      else or_else (type d) [])"

definition render_section :: "parser \<Rightarrow> Division \<Rightarrow> node \<times> node option" where
  \<open>render_section parse d =
     (let id = js ''div_'' @ sanitizeId (or_else (n d) (or_else (type d) []));
          sec = createElement (js ''section'');
          sec = setAttribute (js ''id'') id sec;
          head = createElement (js ''div'');
          head = setAttribute (js ''class'') (js ''sec-head'') head;
          h = createElement (js ''h3'');
          h = setAttribute (js ''class'') (js ''sec-title'') h;
          h = set_textContent (heading d) h;
          head = appendChild h head;
          hasCommentary = has_content (commentaryHtml d);
          hasApparatus = has_content (apparatusHtml d);
          btn = (if hasCommentary \<or> hasApparatus then
                   (let b = createElement (js ''button'');
                        b = setAttribute (js ''type'') (js ''button'') b;
                        b = setAttribute (js ''class'') (js ''btn btn-toggle'') b;
                        b = setAttribute (js ''aria-expanded'') (js ''false'') b;
                        b = set_textContent (js ''Mostra commentario e apparato'') b
                    in Some b)
                 else None);
          head = (case btn of Some b \<Rightarrow> appendChild b head | None \<Rightarrow> head);
          sec = appendChild head sec;
          wrapper = buildDivContent parse d;
          sec = appendChild wrapper sec;
          sec = (if hasCommentary then
                   (let aside = createElement (js ''aside'');
                        aside = setAttribute (js ''class'') (js ''sec-aside commentary'') aside;
                        aside = set_innerHTML parse
                                  (js ''<h4 class="sec-minihead">Commentary</h4>''
                                   @ or_else (commentaryHtml d) []) aside
                    in appendChild aside sec)
                 else sec);
          sec = (if hasApparatus then
                   (let app = createElement (js ''div'');
                        app = setAttribute (js ''class'') (js ''sec-apparatus'') app;
                        app = set_innerHTML parse
                                (js ''<h4 class="sec-minihead">Apparatus criticus</h4>''
                                 @ or_else (apparatusHtml d) []) app
                    in appendChild app sec)
                 else sec)
      in (sec, btn))\<close>

text \<open>
  What \<open>render\<close> leaves in the page: the text of the title and author elements when the
  payload sets them, the children of the TOC container and of the main container, the
  list \<open>links\<close>, and for each section its toggle button. Of the four calls that end
  \<open>render\<close>, \<open>renderSpecimen\<close> and \<open>initThemeToggle\<close> are modelled on their own;
  \<open>initSpanTitles\<close> is left out, and of \<open>initActiveTOC\<close> only the lookup of the sections
  is modelled, further down.
\<close>

record rendered =
  work_title :: "jsstring option"
  work_author :: "jsstring option"
  toc :: "node list"
  links :: "(jsstring \<times> node) list"
  edition :: "node list"
  toggles :: "node option list"

definition render :: "parser \<Rightarrow> DocumentPayload \<Rightarrow> rendered" where
  "render parse payload =
     \<lparr>work_title =
        (case meta payload of None \<Rightarrow> None | Some m \<Rightarrow> if truthy (title m) then title m else None),
      work_author =
        (case meta payload of None \<Rightarrow> None | Some m \<Rightarrow> if truthy (author m) then author m else None),
      toc = map (\<lambda>d. snd (toc_link d)) (divs payload),
      links = map toc_link (divs payload),
      edition = map (\<lambda>d. fst (render_section parse d)) (divs payload),
      toggles = map (\<lambda>d. snd (render_section parse d)) (divs payload)\<rparr>"

section \<open>Looking a section up by its id\<close>








section \<open>toggleSection\<close>

text \<open>
  \<open>sec.classList\<close> is the ordered set of the tokens of the \<^verbatim>\<open>class\<close> attribute, split at
  ASCII white space.
\<close>

definition ascii_whitespace :: "code_unit \<Rightarrow> bool" where
  "ascii_whitespace c \<longleftrightarrow> c \<in> {0x09, 0x0A, 0x0C, 0x0D, 0x20}"

function split_ws :: "jsstring \<Rightarrow> jsstring list" where
  "split_ws [] = []"
| "split_ws (c # cs) =
     (if ascii_whitespace c then split_ws cs
      else (c # takeWhile (\<lambda>x. \<not> ascii_whitespace x) cs)
           # split_ws (dropWhile (\<lambda>x. \<not> ascii_whitespace x) cs))"
  by pat_completeness auto
termination
  by (relation "measure length") (auto simp: le_imp_less_Suc length_dropWhile_le)

definition ordered_set :: "jsstring list \<Rightarrow> jsstring list" where
  "ordered_set ts = fold (\<lambda>t acc. if t \<in> set acc then acc else acc @ [t]) ts []"

definition classList :: "node \<Rightarrow> jsstring list" where
  "classList el =
     (case getAttribute (js ''class'') el of None \<Rightarrow> [] | Some v \<Rightarrow> ordered_set (split_ws v))"

text \<open>
  The state that \<open>toggleSection(sec, btn)\<close> reads and writes: the class list of the
  section, and the \<^verbatim>\<open>aria-expanded\<close> attribute and the text of the button, when there is a
  button.
\<close>

record control =
  aria_expanded :: "jsstring option"
  btn_text :: jsstring

record section_state =
  sec_classList :: "jsstring list"
  btn :: "control option"

definition section_state_of :: "node \<times> node option \<Rightarrow> section_state" where
  "section_state_of sb =
     \<lparr>sec_classList = classList (fst sb),
      btn = map_option
              (\<lambda>b. \<lparr>aria_expanded = getAttribute (js ''aria-expanded'') b,
                     btn_text = textContent b\<rparr>)
              (snd sb)\<rparr>"

text \<open>\<^verbatim>\<open>classList.toggle(t)\<close>: the new set, and whether the token is now present.\<close>

definition classList_toggle :: "jsstring \<Rightarrow> jsstring list \<Rightarrow> jsstring list \<times> bool" where
  "classList_toggle t ts =
     (if t \<in> set ts then (removeAll t ts, False) else (ts @ [t], True))"

definition toggleSection :: "section_state \<Rightarrow> section_state" where
  "toggleSection s =
     (let (cl, expanded) = classList_toggle (js ''expanded'') (sec_classList s)
      in \<lparr>sec_classList = cl,
          btn = (case btn s of
                   None \<Rightarrow> None
                 | Some b \<Rightarrow>
                     Some (b\<lparr>aria_expanded := Some (if expanded then js ''true'' else js ''false''),
                             btn_text := (if expanded then js ''Nascondi commentario e apparato''
                                          else js ''Mostra commentario e apparato'')\<rparr>))\<rparr>)"

text \<open>The two states of a section with a toggle button.\<close>

definition collapsed :: section_state where
  "collapsed =
     \<lparr>sec_classList = [],
      btn = Some \<lparr>aria_expanded = Some (js ''false''),
                  btn_text = js ''Mostra commentario e apparato''\<rparr>\<rparr>"

definition expanded :: section_state where
  "expanded =
     \<lparr>sec_classList = [js ''expanded''],
      btn = Some \<lparr>aria_expanded = Some (js ''true''),
                  btn_text = js ''Nascondi commentario e apparato''\<rparr>\<rparr>"

section \<open>renderSpecimen\<close>

definition fallback_witnesses :: "Witness list" where
  "fallback_witnesses =
     [\<lparr>id_w = js ''A'', text_w = Some (js ''Codex A (fict.), saec. XII'')\<rparr>,
      \<lparr>id_w = js ''B'', text_w = Some (js ''Codex B (fict.), saec. XIII'')\<rparr>,
      \<lparr>id_w = js ''C'', text_w = Some (js ''Codex C (fict.), saec. XIV'')\<rparr>,
      \<lparr>id_w = js ''AI'', text_w = Some (js ''Aulus Intellex (ed.)'')\<rparr>]"

text \<open>The constant \<open>wits\<close> of \<open>renderSpecimen\<close>.\<close>

definition wits :: "DocumentPayload \<Rightarrow> Witness list" where
  "wits payload =
     (case meta payload of
        None \<Rightarrow> fallback_witnesses
      | Some m \<Rightarrow>
          (case witnesses m of
             None \<Rightarrow> fallback_witnesses
           | Some ws \<Rightarrow> if length ws \<noteq> 0 then ws else fallback_witnesses))"

text \<open>The inner template literal: the markup of one witness.\<close>

definition sigla :: "Witness \<Rightarrow> jsstring" where
  "sigla w = (if id_w w = js ''AI'' then js ''AI (ed.)'' else id_w w)"

definition sig_markup :: "Witness \<Rightarrow> jsstring" where
  \<open>sig_markup w =
     js ''\<newline>          <div class="sig">\<newline>            <dt class="sigla">''
     @ sigla w
     @ js ''</dt>\<newline>            <dd class="expansion">''
     @ or_else (text_w w) []
     @ js ''</dd>\<newline>          </div>''\<close>

text \<open>The outer template literal: the markup of the card.\<close>

definition specimen_card :: "Witness list \<Rightarrow> jsstring" where
  \<open>specimen_card ws =
     js ''\<newline>    <div class="specimen-card">\<newline>      <div class="specimen-head">SIGLA</div>\<newline>      <dl class="specimen-list">\<newline>        ''
     @ concat (map sig_markup ws)
     @ js ''\<newline>      </dl>\<newline>    </div>''\<close>

text \<open>
  What \<open>renderSpecimen\<close> does to the host element, given whether the sidebar container is in
  the page: nothing without a sidebar, else it clears the host or writes the card.
\<close>

datatype specimen = Nothing | Cleared | Card jsstring

definition renderSpecimen :: "bool \<Rightarrow> DocumentPayload \<Rightarrow> specimen" where
  "renderSpecimen sidebar payload =
     (if \<not> sidebar then Nothing
      else
        (let ws = wits payload
         in if length ws = 0 then Cleared else Card (specimen_card ws)))"

section \<open>Results\<close>

subsection \<open>Evaluating literals\<close>

lemma js_Nil [simp]: "js [] = []"
  by (simp add: js_def)

lemma js_Cons [simp]: "js (c # cs) = of_nat (of_char c) # js cs"
  by (simp add: js_def)

lemma js_append: "js (a @ b) = js a @ js b"
  by (simp add: js_def)

subsection \<open>sanitizeId and the section id\<close>

lemma allowed_underscore: "allowed underscore"
  by (simp add: allowed_def underscore_def)

lemma replace_runs_allowed: "c \<in> set (replace_runs s) \<Longrightarrow> allowed c"
  by (induction s rule: replace_runs.induct) (auto simp: allowed_underscore split: if_splits)

lemma replace_runs_id: "\<forall>c\<in>set xs. allowed c \<Longrightarrow> replace_runs xs = xs"
  by (induction xs) auto

lemma replace_runs_append:
  "xs = [] \<or> allowed (last xs) \<Longrightarrow> replace_runs (xs @ ys) = replace_runs xs @ replace_runs ys"
proof (induction xs rule: replace_runs.induct)
  case 1
  then show ?case by simp
next
  case (2 c cs)
  show ?case
  proof (cases "allowed c")
    case True
    with 2 show ?thesis by (cases "cs = []") auto
  next
    case False
    let ?r = "dropWhile (\<lambda>x. \<not> allowed x) cs"
    from 2(3) False have cs: "cs \<noteq> []" "allowed (last cs)" by (auto split: if_splits)
    then have ex: "\<exists>x\<in>set cs. allowed x" using last_in_set by blast
    then have r: "?r \<noteq> []" by (simp add: dropWhile_eq_Nil_conv)
    have "last ?r = last cs"
      using r by (metis last_appendR takeWhile_dropWhile_id)
    with r cs have "?r = [] \<or> allowed (last ?r)" by simp
    with 2(2)[OF False] have ih: "replace_runs (?r @ ys) = replace_runs ?r @ replace_runs ys" by simp
    have "dropWhile (\<lambda>x. \<not> allowed x) (cs @ ys) = ?r @ ys"
      using ex by (metis (mono_tags, lifting) dropWhile_append1)
    with False ih show ?thesis by simp
  qed
qed

lemma replace_runs_bad:
  assumes "bad \<noteq> []" "\<forall>c\<in>set bad. \<not> allowed c" "ys = [] \<or> allowed (hd ys)"
  shows "replace_runs (bad @ ys) = underscore # replace_runs ys"
proof -
  from assms(1) obtain b bs where bad: "bad = b # bs" by (cases bad) auto
  have "dropWhile (\<lambda>x. \<not> allowed x) (bs @ ys) = ys"
    using assms(2,3) bad by (cases ys) (auto simp: dropWhile_append)
  with bad assms(2) show ?thesis by simp
qed

lemma set_trim_underscores: "set (trim_underscores s) \<subseteq> set s"
  unfolding trim_underscores_def
  by (auto dest!: set_dropWhileD)

lemma trim_underscores_ends:
  assumes "trim_underscores s \<noteq> []"
  shows "hd (trim_underscores s) \<noteq> underscore \<and> last (trim_underscores s) \<noteq> underscore"
proof -
  let ?P = "\<lambda>c. c = underscore"
  let ?t = "dropWhile ?P s"
  let ?u = "dropWhile ?P (rev ?t)"
  from assms have u: "?u \<noteq> []" by (simp add: trim_underscores_def)
  then have t: "?t \<noteq> []" by (metis dropWhile.simps(1) rev.simps(1))
  have "\<not> ?P (hd ?u)" using u by (rule hd_dropWhile)
  then have l: "last (rev ?u) \<noteq> underscore" using u by (simp add: last_rev)
  have "last ?u = last (rev ?t)"
    using u by (metis last_appendR takeWhile_dropWhile_id)
  also have "\<dots> = hd ?t" using t by (simp add: last_rev)
  finally have "hd (rev ?u) = hd ?t" using u by (simp add: hd_rev)
  moreover have "\<not> ?P (hd ?t)" using t by (rule hd_dropWhile)
  ultimately show ?thesis using l by (simp add: trim_underscores_def)
qed

text \<open>
  C2 (as amended). The section id of a division is \<^verbatim>\<open>div_\<close> followed by its label, in which
  every maximal run of code units outside \<^verbatim>\<open>[A-Za-z0-9.\-_]\<close> has become one underscore
  (a string inside the class is left as it is; a run between two code units of the class,
  or at an end, gives exactly one underscore) and the underscores at both ends have then
  been trimmed. The sanitized part holds only code units of the class and neither starts
  nor ends with an underscore.
\<close>

theorem section_id_sanitized:
  "section_id d = js ''div_'' @ trim_underscores (replace_runs (label d))
   \<and> ((\<forall>c\<in>set xs. allowed c) \<longrightarrow> replace_runs xs = xs)
   \<and> (bad \<noteq> [] \<and> (\<forall>c\<in>set bad. \<not> allowed c) \<and> (xs = [] \<or> allowed (last xs))
        \<and> (ys = [] \<or> allowed (hd ys))
      \<longrightarrow> replace_runs (xs @ bad @ ys) = replace_runs xs @ underscore # replace_runs ys)
   \<and> (\<forall>c\<in>set (sanitizeId (label d)). allowed c)
   \<and> (sanitizeId (label d) \<noteq> []
      \<longrightarrow> hd (sanitizeId (label d)) \<noteq> underscore \<and> last (sanitizeId (label d)) \<noteq> underscore)"
proof -
  have "c \<in> set (sanitizeId (label d)) \<Longrightarrow> allowed c" for c
    using set_trim_underscores replace_runs_allowed unfolding sanitizeId_def by blast
  then show ?thesis
    using trim_underscores_ends[of "replace_runs (label d)"]
    by (simp add: section_id_def sanitizeId_def replace_runs_id replace_runs_append replace_runs_bad)
qed

text \<open>
  The theorem at the label \<^verbatim>\<open>_a  b!\<close>, with the run of two spaces between \<^verbatim>\<open>_a\<close> and
  \<^verbatim>\<open>b!\<close>: the id is \<^verbatim>\<open>div_a_b\<close>.
\<close>

theorem section_id_sanitized_witness:
  "list_all allowed (js ''_a'')
   \<and> js ''  '' \<noteq> [] \<and> list_all (\<lambda>c. \<not> allowed c) (js ''  '')
   \<and> allowed (last (js ''_a'')) \<and> allowed (hd (js ''b!''))
   \<and> replace_runs (js ''_a'') = js ''_a''
   \<and> replace_runs (js ''_a'' @ js ''  '' @ js ''b!'')
       = replace_runs (js ''_a'') @ underscore # replace_runs (js ''b!'')
   \<and> sanitizeId (js ''_a  b!'') \<noteq> []
   \<and> section_id \<lparr>n = Some (js ''_a  b!''), type = None, html = None,
        commentaryHtml = None, apparatusHtml = None\<rparr> = js ''div_a_b''
   \<and> list_all allowed (js ''a_b'')
   \<and> hd (js ''a_b'') \<noteq> underscore \<and> last (js ''a_b'') \<noteq> underscore"
  using section_id_sanitized [of "\<lparr>n = Some (js ''_a  b!''), type = None, html = None,
      commentaryHtml = None, apparatusHtml = None\<rparr>" "js ''_a''" "js ''  ''" "js ''b!''"]
  by (simp add: label_def or_else_def sanitizeId_def
      trim_underscores_def allowed_def underscore_def)

text \<open>
  C2 as the specification words it, with every code unit outside the class mapped to an
  underscore of its own, fails at the label \<^verbatim>\<open>a  b\<close>: the code gives \<^verbatim>\<open>div_a_b\<close>,
  the per-character reading gives \<^verbatim>\<open>div_a__b\<close>.
\<close>

theorem section_id_per_character_counterexample:
  "section_id \<lparr>n = Some (js ''a  b''), type = None, html = None,
      commentaryHtml = None, apparatusHtml = None\<rparr>
   \<noteq> js ''div_'' @ sanitize_per_character (js ''a  b'')"
  by (simp add: section_id_def sanitizeId_def label_def or_else_def sanitize_per_character_def
      trim_underscores_def allowed_def underscore_def)

subsection \<open>loadBodyJson\<close>

text \<open>
  C5. When \<open>window.__BODY__\<close> is an object (present and non-null), \<open>loadBodyJson\<close> returns it
  and makes no request. Otherwise it fetches \<^verbatim>\<open>./body.json\<close>; with a response in hand it
  fails with the error \<^verbatim>\<open>Failed to fetch body.json: \<close> followed by the status text exactly
  when the response is not ok, and for an ok response whose body parses it returns the
  parsed payload.
\<close>

theorem loadBodyJson_contract:
  "loadBodyJson (Object p) network = ([], Inr p)
   \<and> (body = Undefined \<or> body = Null \<or> body = Primitive \<longrightarrow>
        fst (loadBodyJson body network) = [Fetch (js ''./body.json'')]
      \<and> (snd (loadBodyJson body (Some res))
            = Inl (Error (js ''Failed to fetch body.json: '' @ statusText res))
          \<longleftrightarrow> \<not> ok res)
      \<and> (ok res \<and> json res = Some q \<longrightarrow> snd (loadBodyJson body (Some res)) = Inr q))"
  by (auto simp: loadBodyJson_def split: option.splits)

text \<open>
  The theorem at a 404 response while \<open>window.__BODY__\<close> is undefined, and at an ok
  response while it is \<^verbatim>\<open>null\<close>.
\<close>

theorem loadBodyJson_contract_witness:
  "loadBodyJson Undefined (Some \<lparr>ok = False, statusText = js ''Not Found'', json = None\<rparr>)
     = ([Fetch (js ''./body.json'')], Inl (Error (js ''Failed to fetch body.json: Not Found'')))
   \<and> ok \<lparr>ok = True, statusText = js ''OK'', json = Some \<lparr>meta = None, divs = []\<rparr>\<rparr>
   \<and> loadBodyJson Null
        (Some \<lparr>ok = True, statusText = js ''OK'', json = Some \<lparr>meta = None, divs = []\<rparr>\<rparr>)
     = ([Fetch (js ''./body.json'')], Inr \<lparr>meta = None, divs = []\<rparr>)"
  using loadBodyJson_contract [of "\<lparr>meta = None, divs = []\<rparr>"
      "Some \<lparr>ok = False, statusText = js ''Not Found'', json = None\<rparr>" Undefined
      "\<lparr>ok = False, statusText = js ''Not Found'', json = None\<rparr>"
      "\<lparr>meta = None, divs = []\<rparr>"]
    loadBodyJson_contract [of "\<lparr>meta = None, divs = []\<rparr>"
      "Some \<lparr>ok = True, statusText = js ''OK'', json = Some \<lparr>meta = None, divs = []\<rparr>\<rparr>" Null
      "\<lparr>ok = True, statusText = js ''OK'', json = Some \<lparr>meta = None, divs = []\<rparr>\<rparr>"
      "\<lparr>meta = None, divs = []\<rparr>"]
  by (simp add: prod_eq_iff)

subsection \<open>The theme toggle\<close>

text \<open>
  C7. A click on the theme toggle leaves the root attribute at \<^verbatim>\<open>light\<close> or \<^verbatim>\<open>dark\<close>, whatever
  the state before; from \<^verbatim>\<open>light\<close> or \<^verbatim>\<open>dark\<close>, two clicks give the original mode back; and
  after every click the stored preference equals the root attribute.
\<close>

theorem theme_click:
  "(data_theme (click s) = Some (js ''light'') \<or> data_theme (click s) = Some (js ''dark''))
   \<and> (data_theme s = Some (js ''light'') \<or> data_theme s = Some (js ''dark'')
        \<longrightarrow> data_theme (click (click s)) = data_theme s)
   \<and> stored (click s) = data_theme (click s)"
  by (auto simp: click_def apply_mode_def Let_def)

text \<open>The theorem at the mode \<^verbatim>\<open>light\<close> with nothing stored.\<close>

theorem theme_click_witness:
  "data_theme (click (click \<lparr>data_theme = Some (js ''light''), stored = None\<rparr>))
     = Some (js ''light'')
   \<and> data_theme (click \<lparr>data_theme = Some (js ''light''), stored = None\<rparr>) = Some (js ''dark'')
   \<and> stored (click \<lparr>data_theme = Some (js ''light''), stored = None\<rparr>) = Some (js ''dark'')"
  using theme_click [of "\<lparr>data_theme = Some (js ''light''), stored = None\<rparr>"]
  by (simp add: click_def apply_mode_def Let_def)

subsection \<open>Moving nodes between parents\<close>

lemma elements_append: "elements (f @ g) = elements f @ elements g"
  by (induction f rule: elements.induct) auto

lemma elements_Cons: "elements (p # f) = elements [p] @ elements f"
  using elements_append[of "[p]" f] by simp

lemma detach_append: "detach i (f @ g) = detach i f @ detach i g"
  by (induction i f rule: detach.induct) auto

lemma find_node_append:
  "find_node i (f @ g) = (case find_node i f of Some p \<Rightarrow> Some p | None \<Rightarrow> find_node i g)"
  by (induction i f rule: find_node.induct) (auto split: option.splits)

lemma find_node_None: "find_node i f = None \<longleftrightarrow> i \<notin> fst ` set (elements f)"
  by (induction i f rule: find_node.induct) (auto split: option.splits)

lemma find_node_root: "find_node i f = Some p \<Longrightarrow> root_ref p = Some i"
  by (induction i f rule: find_node.induct) (auto simp: root_ref_def split: option.splits if_splits)

lemma detach_absent: "i \<notin> fst ` set (elements f) \<Longrightarrow> detach i f = f"
  by (induction i f rule: detach.induct) auto

lemma root_ref_detach:
  "map root_ref (detach i f) = filter (\<lambda>r. r \<noteq> Some i) (map root_ref f)"
  by (induction i f rule: detach.induct) (auto simp: root_ref_def)

lemma mset_elements_detach:
  "distinct (map fst (elements f)) \<Longrightarrow> find_node i f = Some p \<Longrightarrow>
   mset (elements (detach i f)) + mset (elements [p]) = mset (elements f)"
proof (induction i f rule: find_node.induct)
  case (2 i j t a cs rest)
  show ?case
  proof (cases "j = i")
    case True
    with 2(3) have "i \<notin> fst ` set (elements rest)" by auto
    then have "detach i rest = rest" by (rule detach_absent)
    with True 2(4) show ?thesis by auto
  next
    case False
    show ?thesis
    proof (cases "find_node i cs")
      case None
      then have "detach i cs = cs" by (simp add: find_node_None detach_absent)
      moreover from None False 2(4) have "find_node i rest = Some p" by simp
      moreover from 2(3) have "distinct (map fst (elements rest))" by simp
      ultimately show ?thesis using 2(2)[OF False None] False by simp
    next
      case (Some q)
      with False 2(4) have q: "q = p" by simp
      from Some have "i \<in> fst ` set (elements cs)" using find_node_None[of i cs] by auto
      with 2(3) have "i \<notin> fst ` set (elements rest)" by auto
      then have "detach i rest = rest" by (rule detach_absent)
      moreover from 2(3) have "distinct (map fst (elements cs))" by simp
      ultimately show ?thesis using 2(1)[OF False] Some q False by simp
    qed
  qed
qed auto

lemma appendChild_left_step:
  assumes "distinct (map fst (elements (all_nodes s)))" "i \<in> fst ` set (elements (all_nodes s))"
  shows "mset (elements (all_nodes (appendChild_left i s))) = mset (elements (all_nodes s))"
    and "map root_ref (left (appendChild_left i s))
         = filter (\<lambda>r. r \<noteq> Some i) (map root_ref (left s)) @ [Some i]"
    and "map root_ref (right (appendChild_left i s))
         = filter (\<lambda>r. r \<noteq> Some i) (map root_ref (right s))"
proof -
  from assms(2) obtain p where p: "find_node i (all_nodes s) = Some p"
    using find_node_None[of i "all_nodes s"] by (cases "find_node i (all_nodes s)") auto
  then have s': "appendChild_left i s
      = \<lparr>tmp = detach i (tmp s), left = detach i (left s) @ [p], right = detach i (right s)\<rparr>"
    by (simp add: appendChild_left_def all_nodes_def)
  have "mset (elements (detach i (all_nodes s))) + mset (elements [p])
        = mset (elements (all_nodes s))"
    using assms(1) p by (rule mset_elements_detach)
  then show "mset (elements (all_nodes (appendChild_left i s))) = mset (elements (all_nodes s))"
    by (simp add: s' all_nodes_def elements_append detach_append
        elements_Cons[of p "detach i (right s)"] ac_simps)
  show "map root_ref (left (appendChild_left i s))
         = filter (\<lambda>r. r \<noteq> Some i) (map root_ref (left s)) @ [Some i]"
    using find_node_root[OF p] by (simp add: s' root_ref_detach)
  show "map root_ref (right (appendChild_left i s))
         = filter (\<lambda>r. r \<noteq> Some i) (map root_ref (right s))"
    by (simp add: s' root_ref_detach)
qed

lemma appendChild_right_step:
  assumes "distinct (map fst (elements (all_nodes s)))" "i \<in> fst ` set (elements (all_nodes s))"
  shows "mset (elements (all_nodes (appendChild_right i s))) = mset (elements (all_nodes s))"
    and "map root_ref (right (appendChild_right i s))
         = filter (\<lambda>r. r \<noteq> Some i) (map root_ref (right s)) @ [Some i]"
    and "map root_ref (left (appendChild_right i s))
         = filter (\<lambda>r. r \<noteq> Some i) (map root_ref (left s))"
proof -
  from assms(2) obtain p where p: "find_node i (all_nodes s) = Some p"
    using find_node_None[of i "all_nodes s"] by (cases "find_node i (all_nodes s)") auto
  then have s': "appendChild_right i s
      = \<lparr>tmp = detach i (tmp s), left = detach i (left s), right = detach i (right s) @ [p]\<rparr>"
    by (simp add: appendChild_right_def all_nodes_def)
  have "mset (elements (detach i (all_nodes s))) + mset (elements [p])
        = mset (elements (all_nodes s))"
    using assms(1) p by (rule mset_elements_detach)
  then show "mset (elements (all_nodes (appendChild_right i s))) = mset (elements (all_nodes s))"
    by (simp add: s' all_nodes_def elements_append detach_append ac_simps)
  show "map root_ref (right (appendChild_right i s))
         = filter (\<lambda>r. r \<noteq> Some i) (map root_ref (right s)) @ [Some i]"
    using find_node_root[OF p] by (simp add: s' root_ref_detach)
  show "map root_ref (left (appendChild_right i s))
         = filter (\<lambda>r. r \<noteq> Some i) (map root_ref (left s))"
    by (simp add: s' root_ref_detach)
qed

lemma mset_elements_keys:
  assumes "mset (elements g) = mset (elements f)"
  shows "distinct (map fst (elements g)) = distinct (map fst (elements f))"
    and "set (elements g) = set (elements f)"
proof -
  from assms have "mset (map fst (elements g)) = mset (map fst (elements f))"
    by (metis mset_map)
  then show "distinct (map fst (elements g)) = distinct (map fst (elements f))"
    by (rule mset_eq_imp_distinct_iff)
  from assms show "set (elements g) = set (elements f)"
    by (rule mset_eq_setD)
qed

lemma fold_appendChild_left:
  assumes "distinct (map fst (elements (all_nodes s)))"
    "set ks \<subseteq> fst ` set (elements (all_nodes s))" "distinct ks"
  shows "mset (elements (all_nodes (fold appendChild_left ks s))) = mset (elements (all_nodes s))
    \<and> map root_ref (left (fold appendChild_left ks s))
        = filter (\<lambda>r. r \<notin> Some ` set ks) (map root_ref (left s)) @ map Some ks
    \<and> map root_ref (right (fold appendChild_left ks s))
        = filter (\<lambda>r. r \<notin> Some ` set ks) (map root_ref (right s))"
  using assms
proof (induction ks arbitrary: s)
  case Nil
  then show ?case by simp
next
  case (Cons i ks)
  let ?s = "appendChild_left i s"
  from Cons.prems have i: "i \<in> fst ` set (elements (all_nodes s))" by simp
  note st = appendChild_left_step[OF Cons.prems(1) i]
  note k = mset_elements_keys[OF st(1)]
  have "distinct (map fst (elements (all_nodes ?s)))" using k(1) Cons.prems(1) by simp
  moreover have "set ks \<subseteq> fst ` set (elements (all_nodes ?s))" using k(2) Cons.prems(2) by simp
  moreover have "distinct ks" using Cons.prems(3) by simp
  ultimately have ih: "mset (elements (all_nodes (fold appendChild_left ks ?s)))
        = mset (elements (all_nodes ?s))
    \<and> map root_ref (left (fold appendChild_left ks ?s))
        = filter (\<lambda>r. r \<notin> Some ` set ks) (map root_ref (left ?s)) @ map Some ks
    \<and> map root_ref (right (fold appendChild_left ks ?s))
        = filter (\<lambda>r. r \<notin> Some ` set ks) (map root_ref (right ?s))"
    by (rule Cons.IH)
  have ni: "Some i \<notin> Some ` set ks" using Cons.prems(3) by auto
  have f: "filter (\<lambda>r. r \<notin> Some ` set ks) (filter (\<lambda>r. r \<noteq> Some i) xs)
        = filter (\<lambda>r. r \<notin> Some ` set (i # ks)) xs" for xs :: "nat option list"
    by (induction xs) auto
  show ?case using ih st ni by (simp add: f)
qed

lemma fold_appendChild_right:
  assumes "distinct (map fst (elements (all_nodes s)))"
    "set ks \<subseteq> fst ` set (elements (all_nodes s))" "distinct ks"
  shows "mset (elements (all_nodes (fold appendChild_right ks s))) = mset (elements (all_nodes s))
    \<and> map root_ref (right (fold appendChild_right ks s))
        = filter (\<lambda>r. r \<notin> Some ` set ks) (map root_ref (right s)) @ map Some ks
    \<and> map root_ref (left (fold appendChild_right ks s))
        = filter (\<lambda>r. r \<notin> Some ` set ks) (map root_ref (left s))"
  using assms
proof (induction ks arbitrary: s)
  case Nil
  then show ?case by simp
next
  case (Cons i ks)
  let ?s = "appendChild_right i s"
  from Cons.prems have i: "i \<in> fst ` set (elements (all_nodes s))" by simp
  note st = appendChild_right_step[OF Cons.prems(1) i]
  note k = mset_elements_keys[OF st(1)]
  have "distinct (map fst (elements (all_nodes ?s)))" using k(1) Cons.prems(1) by simp
  moreover have "set ks \<subseteq> fst ` set (elements (all_nodes ?s))" using k(2) Cons.prems(2) by simp
  moreover have "distinct ks" using Cons.prems(3) by simp
  ultimately have ih: "mset (elements (all_nodes (fold appendChild_right ks ?s)))
        = mset (elements (all_nodes ?s))
    \<and> map root_ref (right (fold appendChild_right ks ?s))
        = filter (\<lambda>r. r \<notin> Some ` set ks) (map root_ref (right ?s)) @ map Some ks
    \<and> map root_ref (left (fold appendChild_right ks ?s))
        = filter (\<lambda>r. r \<notin> Some ` set ks) (map root_ref (left ?s))"
    by (rule Cons.IH)
  have ni: "Some i \<notin> Some ` set ks" using Cons.prems(3) by auto
  have f: "filter (\<lambda>r. r \<notin> Some ` set ks) (filter (\<lambda>r. r \<noteq> Some i) xs)
        = filter (\<lambda>r. r \<notin> Some ` set (i # ks)) xs" for xs :: "nat option list"
    by (induction xs) auto
  show ?case using ih st ni by (simp add: f)
qed

lemma p_lang_exclusive: "p_lang (js ''grc'') t a \<Longrightarrow> \<not> p_lang (js ''en'') t a"
  by (auto simp: p_lang_def split: option.splits)

lemma query_subset: "set (querySelectorAll sel f) \<subseteq> fst ` set (elements f)"
  by (auto simp: querySelectorAll_def)

lemma query_distinct:
  "distinct (map fst (elements f)) \<Longrightarrow> distinct (querySelectorAll sel f)"
  by (simp add: querySelectorAll_def distinct_map_filter)

lemma query_member:
  assumes "distinct (map fst (elements f))" "(i, t, a) \<in> set (elements f)"
  shows "i \<in> set (querySelectorAll sel f) \<longleftrightarrow> sel t a"
proof
  assume "i \<in> set (querySelectorAll sel f)"
  then obtain t' a' where m: "(i, t', a') \<in> set (elements f)" "sel t' a'"
    by (auto simp: querySelectorAll_def)
  from assms m(1) have "(t', a') = (t, a)" by (metis eq_key_imp_eq_value)
  with m(2) show "sel t a" by simp
next
  assume "sel t a"
  with assms(2) show "i \<in> set (querySelectorAll sel f)"
    by (force simp: querySelectorAll_def)
qed

lemma root_ref_elements:
  "map root_ref g = map Some rs \<Longrightarrow> set rs \<subseteq> fst ` set (elements g)"
proof (induction g arbitrary: rs)
  case Nil
  then show ?case by simp
next
  case (Cons x g)
  then obtain r rs' where rs: "rs = r # rs'" by (cases rs) auto
  with Cons.prems have x: "root_ref x = Some r" and g: "map root_ref g = map Some rs'" by auto
  from x obtain t a cs where "x = PElement r t a cs"
    by (cases x) (auto simp: root_ref_def)
  with Cons.IH[OF g] rs show ?case by auto
qed

lemma query_roots:
  assumes "distinct (map fst (elements g))" "map root_ref g = map Some rs"
    "\<And>i t a. (i, t, a) \<in> set (elements g) \<Longrightarrow> sel t a \<longleftrightarrow> i \<in> set rs"
  shows "querySelectorAll sel g = rs"
  using assms
proof (induction g arbitrary: rs)
  case Nil
  then show ?case by (simp add: querySelectorAll_def)
next
  case (Cons x g)
  then obtain r rs' where rs: "rs = r # rs'" by (cases rs) auto
  with Cons.prems(2) have x: "root_ref x = Some r" and g: "map root_ref g = map Some rs'"
    by auto
  from x obtain t a cs where xe: "x = PElement r t a cs"
    by (cases x) (auto simp: root_ref_def)
  from Cons.prems(1) xe have d: "r \<notin> fst ` set (elements cs)" "r \<notin> fst ` set (elements g)"
    "distinct (map fst (elements g))"
    "fst ` set (elements cs) \<inter> fst ` set (elements g) = {}"
    by auto
  have sub: "set rs' \<subseteq> fst ` set (elements g)" using g by (rule root_ref_elements)
  have "sel t a" using Cons.prems(3)[of r t a] xe rs by simp
  moreover have "filter (\<lambda>(i, t, a). sel t a) (elements cs) = []"
  proof -
    have "\<not> sel t' a'" if "(j, t', a') \<in> set (elements cs)" for j t' a'
    proof -
      from that have j: "j \<in> fst ` set (elements cs)" by force
      with d(1) have "j \<noteq> r" by auto
      moreover from j d(4) sub have "j \<notin> set rs'" by auto
      ultimately show ?thesis using Cons.prems(3)[of j t' a'] that xe rs by simp
    qed
    then show ?thesis by (auto simp: filter_empty_conv)
  qed
  moreover have "querySelectorAll sel g = rs'"
  proof (rule Cons.IH[OF d(3) g])
    fix j t' a'
    assume m: "(j, t', a') \<in> set (elements g)"
    then have "j \<in> fst ` set (elements g)" by force
    with d(2) have "j \<noteq> r" by auto
    then show "sel t' a' \<longleftrightarrow> j \<in> set rs'"
      using Cons.prems(3)[of j t' a'] m xe rs by simp
  qed
  ultimately show ?case by (simp add: querySelectorAll_def xe rs)
qed

lemma split_columns_result:
  assumes "distinct_nodes f"
  defines "gr \<equiv> querySelectorAll (p_lang (js ''grc'')) f"
    and "en \<equiv> querySelectorAll (p_lang (js ''en'')) f"
  shows "map root_ref (left (split_columns f)) = map Some gr"
    and "map root_ref (right (split_columns f)) = map Some en"
    and "querySelectorAll (p_lang (js ''grc'')) (left (split_columns f)) = gr"
    and "querySelectorAll (p_lang (js ''en'')) (right (split_columns f)) = en"
    and "querySelectorAll (p_lang (js ''en'')) (left (split_columns f)) = []"
    and "querySelectorAll (p_lang (js ''grc'')) (right (split_columns f)) = []"
proof -
  let ?s0 = "\<lparr>tmp = f, left = [], right = []\<rparr>"
  let ?s1 = "fold appendChild_left gr ?s0"
  let ?s2 = "fold appendChild_right en ?s1"
  have s2: "split_columns f = ?s2" by (simp add: split_columns_def gr_def en_def Let_def)
  have d0: "distinct (map fst (elements (all_nodes ?s0)))"
    using assms(1) by (simp add: distinct_nodes_def all_nodes_def)
  have df: "distinct (map fst (elements f))" using assms(1) by (simp add: distinct_nodes_def)
  have gr0: "set gr \<subseteq> fst ` set (elements (all_nodes ?s0))"
    using query_subset[of "p_lang (js ''grc'')" f] by (simp add: gr_def all_nodes_def)
  have dgr: "distinct gr" and den: "distinct en"
    using df by (simp_all add: gr_def en_def query_distinct)
  note l = fold_appendChild_left[OF d0 gr0 dgr]
  note k1 = mset_elements_keys[of "all_nodes ?s1" "all_nodes ?s0"]
  from l have m1: "mset (elements (all_nodes ?s1)) = mset (elements (all_nodes ?s0))" by simp
  have d1: "distinct (map fst (elements (all_nodes ?s1)))" using k1(1)[OF m1] d0 by simp
  have e1: "set (elements (all_nodes ?s1)) = set (elements f)"
    using k1(2)[OF m1] by (simp add: all_nodes_def)
  have en1: "set en \<subseteq> fst ` set (elements (all_nodes ?s1))"
    using query_subset[of "p_lang (js ''en'')" f] e1 by (simp add: en_def)
  note r = fold_appendChild_right[OF d1 en1 den]
  from r have m2: "mset (elements (all_nodes ?s2)) = mset (elements (all_nodes ?s1))" by simp
  note k2 = mset_elements_keys[OF m2]
  have d2: "distinct (map fst (elements (all_nodes ?s2)))" using k2(1) d1 by simp
  have e2: "set (elements (all_nodes ?s2)) = set (elements f)" using k2(2) e1 by simp
  have disj: "set gr \<inter> set en = {}"
  proof -
    have False if "i \<in> set gr" "i \<in> set en" for i
    proof -
      from that(1) obtain t a where m: "(i, t, a) \<in> set (elements f)"
        using query_subset[of "p_lang (js ''grc'')" f] by (auto simp: gr_def)
      from that m show False
        using query_member[OF df m] p_lang_exclusive[of t a] by (simp add: gr_def en_def)
    qed
    then show ?thesis by auto
  qed
  have L: "map root_ref (left ?s2) = map Some gr"
  proof -
    have "filter (\<lambda>r. r \<notin> Some ` set en) (map Some gr) = map Some gr"
      using disj by (auto simp: filter_id_conv)
    with l r show ?thesis by simp
  qed
  have R: "map root_ref (right ?s2) = map Some en"
    using l r by simp
  show "map root_ref (left (split_columns f)) = map Some gr" using L s2 by simp
  show "map root_ref (right (split_columns f)) = map Some en" using R s2 by simp
  have dl: "distinct (map fst (elements (left ?s2)))"
    and dr: "distinct (map fst (elements (right ?s2)))"
    and lr: "fst ` set (elements (left ?s2)) \<inter> fst ` set (elements (right ?s2)) = {}"
    using d2 by (auto simp: all_nodes_def elements_append)
  have inl: "(i, t, a) \<in> set (elements f)" if "(i, t, a) \<in> set (elements (left ?s2))" for i t a
    using that e2 by (auto simp: all_nodes_def elements_append)
  have inr: "(i, t, a) \<in> set (elements f)" if "(i, t, a) \<in> set (elements (right ?s2))" for i t a
    using that e2 by (auto simp: all_nodes_def elements_append)
  have "querySelectorAll (p_lang (js ''grc'')) (left ?s2) = gr"
    using dl L
  proof (rule query_roots)
    fix i t a
    assume "(i, t, a) \<in> set (elements (left ?s2))"
    then show "p_lang (js ''grc'') t a \<longleftrightarrow> i \<in> set gr"
      using query_member[OF df inl] by (simp add: gr_def)
  qed
  then show "querySelectorAll (p_lang (js ''grc'')) (left (split_columns f)) = gr"
    using s2 by simp
  have "querySelectorAll (p_lang (js ''en'')) (right ?s2) = en"
    using dr R
  proof (rule query_roots)
    fix i t a
    assume "(i, t, a) \<in> set (elements (right ?s2))"
    then show "p_lang (js ''en'') t a \<longleftrightarrow> i \<in> set en"
      using query_member[OF df inr] by (simp add: en_def)
  qed
  then show "querySelectorAll (p_lang (js ''en'')) (right (split_columns f)) = en"
    using s2 by simp
  have "\<not> p_lang (js ''en'') t a" if m: "(i, t, a) \<in> set (elements (left ?s2))" for i t a
  proof
    assume "p_lang (js ''en'') t a"
    then have "i \<in> set en" using query_member[OF df inl[OF m]] by (simp add: en_def)
    then have "i \<in> fst ` set (elements (right ?s2))"
      using root_ref_elements[OF R] by auto
    moreover from m have "i \<in> fst ` set (elements (left ?s2))" by force
    ultimately show False using lr by auto
  qed
  then have "querySelectorAll (p_lang (js ''en'')) (left ?s2) = []"
    by (auto simp: querySelectorAll_def filter_empty_conv)
  then show "querySelectorAll (p_lang (js ''en'')) (left (split_columns f)) = []"
    using s2 by simp
  have "\<not> p_lang (js ''grc'') t a" if m: "(i, t, a) \<in> set (elements (right ?s2))" for i t a
  proof
    assume "p_lang (js ''grc'') t a"
    then have "i \<in> set gr" using query_member[OF df inr[OF m]] by (simp add: gr_def)
    then have "i \<in> fst ` set (elements (left ?s2))"
      using root_ref_elements[OF L] by auto
    moreover from m have "i \<in> fst ` set (elements (right ?s2))" by force
    ultimately show False using lr by auto
  qed
  then have "querySelectorAll (p_lang (js ''grc'')) (right ?s2) = []"
    by (auto simp: querySelectorAll_def filter_empty_conv)
  then show "querySelectorAll (p_lang (js ''grc'')) (right (split_columns f)) = []"
    using s2 by simp
qed

lemma fold_appendChild_Parsed:
  "fold (\<lambda>p. appendChild (Parsed p)) xs (Element t a cs) = Element t a (cs @ map Parsed xs)"
  by (induction xs arbitrary: cs) auto


lemma example_parse_division:
  "example_parse (js ''div'') (or_else (html example_division) []) = example_forest"
  by (simp add: example_parse_def example_division_def or_else_def example_markup_def)

lemma example_queries:
  "querySelectorAll (p_lang (js ''grc'')) example_forest = [0, 5]"
  "querySelectorAll (p_lang (js ''en'')) example_forest = [2, 3]"
  by (simp_all add: example_forest_def querySelectorAll_def p_lang_def ascii_lower_def)

subsection \<open>buildDivContent\<close>

text \<open>
  C1. Let the parsed markup of a division hold the paragraphs \<open>gr\<close> with \<^verbatim>\<open>lang="grc"\<close> and the
  paragraphs \<open>en\<close> with \<^verbatim>\<open>lang="en"\<close>, in tree order, and let \<open>en\<close> be non-empty. Then
  \<open>buildDivContent\<close> returns the grid with one row of two columns; the children of the left
  column are exactly the paragraphs \<open>gr\<close>, in that order, and those of the right column
  exactly the paragraphs \<open>en\<close>, in that order. No further paragraph of either language is
  left anywhere inside a column.
\<close>

theorem buildDivContent_two_columns:
  fixes parse :: parser and d :: Division
  defines "f \<equiv> parse (js ''div'') (or_else (html d) [])"
  defines "gr \<equiv> querySelectorAll (p_lang (js ''grc'')) f"
  defines "en \<equiv> querySelectorAll (p_lang (js ''en'')) f"
  defines "l \<equiv> left (split_columns f)"
  defines "r \<equiv> right (split_columns f)"
  assumes "distinct_nodes f" and "length en > 0"
  shows "buildDivContent parse d =
           Element (js ''div'') [(js ''class'', js ''div-html bilingual sec-main'')]
             [Element (js ''div'') [(js ''class'', js ''bi-row bi-two'')]
                [Element (js ''div'') [(js ''class'', js ''bi-col bi-left'')] (map Parsed l),
                 Element (js ''div'') [(js ''class'', js ''bi-col bi-right'')] (map Parsed r)]]
         \<and> length l = length gr \<and> length r = length en
         \<and> map root_ref l = map Some gr \<and> map root_ref r = map Some en
         \<and> querySelectorAll (p_lang (js ''grc'')) l = gr
         \<and> querySelectorAll (p_lang (js ''en'')) r = en
         \<and> querySelectorAll (p_lang (js ''en'')) l = []
         \<and> querySelectorAll (p_lang (js ''grc'')) r = []"
proof -
  note sc = split_columns_result[OF assms(6)]
  have b: "buildDivContent parse d =
           Element (js ''div'') [(js ''class'', js ''div-html bilingual sec-main'')]
             [Element (js ''div'') [(js ''class'', js ''bi-row bi-two'')]
                [Element (js ''div'') [(js ''class'', js ''bi-col bi-left'')] (map Parsed l),
                 Element (js ''div'') [(js ''class'', js ''bi-col bi-right'')] (map Parsed r)]]"
    using assms(7)
    unfolding buildDivContent_def Let_def f_def[symmetric] en_def[symmetric] l_def r_def
    by (simp add: createElement_def fold_appendChild_Parsed)
  have "length (map root_ref l) = length (map Some gr)"
    using sc(1) by (simp add: l_def gr_def)
  then have ll: "length l = length gr" by simp
  have "length (map root_ref r) = length (map Some en)"
    using sc(2) by (simp add: r_def en_def)
  then have lr: "length r = length en" by simp
  show ?thesis
    using b ll lr sc unfolding l_def r_def gr_def en_def by blast
qed


text \<open>
  The theorem at the example: a Greek paragraph that holds an English one inside a button,
  an English paragraph, a paragraph with no language and a second Greek paragraph.
\<close>

theorem buildDivContent_two_columns_witness:
  "distinct_nodes example_forest
   \<and> length (querySelectorAll (p_lang (js ''en'')) example_forest) > 0
   \<and> querySelectorAll (p_lang (js ''grc'')) example_forest = [0, 5]
   \<and> querySelectorAll (p_lang (js ''en'')) example_forest = [2, 3]
   \<and> buildDivContent example_parse example_division =
       Element (js ''div'') [(js ''class'', js ''div-html bilingual sec-main'')]
         [Element (js ''div'') [(js ''class'', js ''bi-row bi-two'')]
           [Element (js ''div'') [(js ''class'', js ''bi-col bi-left'')]
              [Parsed (PElement 0 (js ''p'') [(js ''lang'', js ''grc'')]
                 [PText (js ''x''), PElement 1 (js ''button'') [] []]),
               Parsed (PElement 5 (js ''p'') [(js ''lang'', js ''grc'')] [PText (js ''v'')])],
            Element (js ''div'') [(js ''class'', js ''bi-col bi-right'')]
              [Parsed (PElement 2 (js ''p'') [(js ''lang'', js ''en'')] [PText (js ''y'')]),
               Parsed (PElement 3 (js ''p'') [(js ''lang'', js ''en'')] [PText (js ''z'')])]]]"
proof -
  note q = example_queries
  note e = example_parse_division
  have d: "distinct_nodes example_forest"
    by (simp add: example_forest_def distinct_nodes_def)
  have s: "split_columns example_forest =
    \<lparr>tmp = [PElement 4 (js ''p'') [] [PText (js ''w'')]],
     left = [PElement 0 (js ''p'') [(js ''lang'', js ''grc'')]
                 [PText (js ''x''), PElement 1 (js ''button'') [] []],
             PElement 5 (js ''p'') [(js ''lang'', js ''grc'')] [PText (js ''v'')]],
     right = [PElement 2 (js ''p'') [(js ''lang'', js ''en'')] [PText (js ''y'')],
              PElement 3 (js ''p'') [(js ''lang'', js ''en'')] [PText (js ''z'')]]\<rparr>"
    unfolding split_columns_def q Let_def
    by (simp add: example_forest_def appendChild_left_def appendChild_right_def)
  have d': "distinct_nodes (example_parse (js ''div'') (or_else (html example_division) []))"
    using d by (simp only: e)
  have len: "0 < length (querySelectorAll (p_lang (js ''en''))
      (example_parse (js ''div'') (or_else (html example_division) [])))"
    using q by (simp only: e) simp
  note th = buildDivContent_two_columns [of example_parse example_division, OF d' len]
  have "buildDivContent example_parse example_division =
       Element (js ''div'') [(js ''class'', js ''div-html bilingual sec-main'')]
         [Element (js ''div'') [(js ''class'', js ''bi-row bi-two'')]
           [Element (js ''div'') [(js ''class'', js ''bi-col bi-left'')]
              (map Parsed (left (split_columns example_forest))),
            Element (js ''div'') [(js ''class'', js ''bi-col bi-right'')]
              (map Parsed (right (split_columns example_forest)))]]"
    using th unfolding e by (rule conjunct1)
  then show ?thesis
    unfolding s using d q by simp
qed




subsection \<open>render: the table of contents\<close>

lemma toc_label_nonempty: "toc_label d \<noteq> []"
  by (auto simp: toc_label_def or_else_def split: option.splits)

lemma toc_link_eq:
  "toc_link d =
     (section_id d, Element (js ''a'') [(js ''href'', js ''#'' @ section_id d)] [Text (toc_label d)])"
  using toc_label_nonempty[of d]
  by (simp add: toc_link_def section_id_def label_def createElement_def Let_def)


text \<open>
  C3 (as amended). The TOC entry of a division is an anchor whose \<^verbatim>\<open>href\<close> is \<^verbatim>\<open>#\<close> followed by
  the section id of the division, and whose text is the division's \<open>n\<close> when that is a
  non-empty string, else its \<open>type\<close> when that is a non-empty string, else the string
  \<^verbatim>\<open>div\<close>.
\<close>

theorem toc_entry:
  "toc (render parse payload) =
     map (\<lambda>d. Element (js ''a'') [(js ''href'', js ''#'' @ section_id d)] [Text (toc_label d)])
       (divs payload)
   \<and> (n d = Some s \<and> s \<noteq> [] \<longrightarrow> toc_label d = s)
   \<and> (\<not> truthy (n d) \<and> type d = Some s \<and> s \<noteq> [] \<longrightarrow> toc_label d = s)
   \<and> (\<not> truthy (n d) \<and> \<not> truthy (type d) \<longrightarrow> toc_label d = js ''div'')"
  by (auto simp: render_def toc_link_eq toc_label_def or_else_def truthy_def split: option.splits)

text \<open>
  The theorem at three divisions: one with \<open>n\<close>, one with an empty \<open>n\<close> and a \<open>type\<close>, one
  with neither.
\<close>

theorem toc_entry_witness:
  "truthy (Some (js ''1.1'')) \<and> \<not> truthy None \<and> \<not> truthy (Some [])
   \<and> toc (render example_parse
        \<lparr>meta = None,
         divs = [example_division,
                 \<lparr>n = Some [], type = Some (js ''proem''), html = None,
                  commentaryHtml = None, apparatusHtml = None\<rparr>,
                 \<lparr>n = None, type = None, html = None,
                  commentaryHtml = None, apparatusHtml = None\<rparr>]\<rparr>)
     = [Element (js ''a'') [(js ''href'', js ''#div_1.1'')] [Text (js ''1.1'')],
        Element (js ''a'') [(js ''href'', js ''#div_proem'')] [Text (js ''proem'')],
        Element (js ''a'') [(js ''href'', js ''#div_'')] [Text (js ''div'')]]"
  using toc_entry [of example_parse "\<lparr>meta = None,
         divs = [example_division,
                 \<lparr>n = Some [], type = Some (js ''proem''), html = None,
                  commentaryHtml = None, apparatusHtml = None\<rparr>,
                 \<lparr>n = None, type = None, html = None,
                  commentaryHtml = None, apparatusHtml = None\<rparr>]\<rparr>"
      example_division "js ''1.1''"]
    toc_entry [of example_parse "\<lparr>meta = None, divs = []\<rparr>"
      "\<lparr>n = Some [], type = Some (js ''proem''), html = None,
                  commentaryHtml = None, apparatusHtml = None\<rparr>" "js ''proem''"]
    toc_entry [of example_parse "\<lparr>meta = None, divs = []\<rparr>"
      "\<lparr>n = None, type = None, html = None,
                  commentaryHtml = None, apparatusHtml = None\<rparr>" "[]"]
  by (simp add: truthy_def example_division_def section_id_def label_def or_else_def
      sanitizeId_def trim_underscores_def allowed_def underscore_def)

text \<open>
  C3 as the specification words it, with the empty string as the last resort, fails at a
  division that has neither \<open>n\<close> nor \<open>type\<close>: the text of its anchor is \<^verbatim>\<open>div\<close>, not empty.
\<close>

theorem toc_entry_empty_label_counterexample:
  "textContent (hd (toc (render example_parse
      \<lparr>meta = None,
       divs = [\<lparr>n = None, type = None, html = None,
                commentaryHtml = None, apparatusHtml = None\<rparr>]\<rparr>))) \<noteq> []"
  by (simp add: render_def toc_link_eq toc_label_def or_else_def)










subsection \<open>toggleSection\<close>

lemma render_section_toggle:
  "has_content (commentaryHtml d) \<or> has_content (apparatusHtml d) \<Longrightarrow>
   section_state_of (render_section parse d) = collapsed"
  by (simp add: render_section_def section_state_of_def collapsed_def classList_def
      createElement_def Let_def)

lemma render_section_no_toggle:
  "\<not> has_content (commentaryHtml d) \<Longrightarrow> \<not> has_content (apparatusHtml d) \<Longrightarrow>
   snd (render_section parse d) = None"
  by (simp add: render_section_def Let_def)

lemma toggle_collapsed: "toggleSection collapsed = expanded"
  by (simp add: toggleSection_def classList_toggle_def collapsed_def expanded_def)

lemma toggle_expanded: "toggleSection expanded = collapsed"
  by (simp add: toggleSection_def classList_toggle_def collapsed_def expanded_def)

lemma toggle_twice_classes:
  "set (sec_classList (toggleSection (toggleSection s))) = set (sec_classList s)"
  by (auto simp: toggleSection_def classList_toggle_def Let_def split: option.splits)

lemma toggle_twice_exact:
  "js ''expanded'' \<notin> set (sec_classList s) \<Longrightarrow>
   sec_classList (toggleSection (toggleSection s)) = sec_classList s"
  by (simp add: toggleSection_def classList_toggle_def Let_def)

lemma toggle_twice_control:
  assumes "btn s = Some b"
  shows "btn (toggleSection (toggleSection s)) =
    Some (b\<lparr>aria_expanded :=
               Some (if js ''expanded'' \<in> set (sec_classList s) then js ''true'' else js ''false''),
            btn_text :=
               (if js ''expanded'' \<in> set (sec_classList s) then js ''Nascondi commentario e apparato''
                else js ''Mostra commentario e apparato'')\<rparr>)"
  using assms
  by (auto simp: toggleSection_def classList_toggle_def Let_def split: option.splits)

text \<open>
  C6. A section rendered with a toggle button starts in the collapsed state: no
  \<^verbatim>\<open>expanded\<close> class, \<^verbatim>\<open>aria-expanded="false"\<close> and the label \<^verbatim>\<open>Mostra commentario e apparato\<close>.
  A click takes the collapsed state to the expanded state and the expanded state to the
  collapsed one, so two clicks leave either state as it was. From any state at all, two
  clicks leave the \<^verbatim>\<open>expanded\<close> flag as it was, and they restore the attribute and the label
  of a button that agreed with the flag.
\<close>

theorem toggleSection_involution:
  "(has_content (commentaryHtml d) \<or> has_content (apparatusHtml d)
      \<longrightarrow> section_state_of (render_section parse d) = collapsed)
   \<and> toggleSection collapsed = expanded
   \<and> toggleSection expanded = collapsed
   \<and> (s = collapsed \<or> s = expanded \<longrightarrow> toggleSection (toggleSection s) = s)
   \<and> ((js ''expanded'' \<in> set (sec_classList (toggleSection (toggleSection s))))
        = (js ''expanded'' \<in> set (sec_classList s)))
   \<and> (btn s = Some \<lparr>aria_expanded = Some (js ''false''),
                     btn_text = js ''Mostra commentario e apparato''\<rparr>
       \<and> js ''expanded'' \<notin> set (sec_classList s)
       \<or> btn s = Some \<lparr>aria_expanded = Some (js ''true''),
                     btn_text = js ''Nascondi commentario e apparato''\<rparr>
       \<and> js ''expanded'' \<in> set (sec_classList s)
      \<longrightarrow> btn (toggleSection (toggleSection s)) = btn s)"
proof -
  have a: "s = collapsed \<or> s = expanded \<longrightarrow> toggleSection (toggleSection s) = s"
    by (auto simp: toggle_collapsed toggle_expanded)
  have b: "(js ''expanded'' \<in> set (sec_classList (toggleSection (toggleSection s))))
        = (js ''expanded'' \<in> set (sec_classList s))"
    using toggle_twice_classes[of s] by simp
  have c: "btn s = Some \<lparr>aria_expanded = Some (js ''false''),
                     btn_text = js ''Mostra commentario e apparato''\<rparr>
       \<and> js ''expanded'' \<notin> set (sec_classList s)
       \<or> btn s = Some \<lparr>aria_expanded = Some (js ''true''),
                     btn_text = js ''Nascondi commentario e apparato''\<rparr>
       \<and> js ''expanded'' \<in> set (sec_classList s)
      \<longrightarrow> btn (toggleSection (toggleSection s)) = btn s"
    by (auto simp: toggle_twice_control[of s])
  show ?thesis
    using a b c render_section_toggle[of d parse] toggle_collapsed toggle_expanded
    by blast
qed

text \<open>
  The theorem at a division with a commentary and a blank apparatus, and at both states.
\<close>

theorem toggleSection_involution_witness:
  "has_content (commentaryHtml \<lparr>n = Some (js ''1.2''), type = None, html = None,
      commentaryHtml = Some (js ''<p>note</p>''), apparatusHtml = Some (js ''  '')\<rparr>)
   \<and> section_state_of (render_section example_parse \<lparr>n = Some (js ''1.2''), type = None, html = None,
      commentaryHtml = Some (js ''<p>note</p>''), apparatusHtml = Some (js ''  '')\<rparr>) = collapsed
   \<and> toggleSection (toggleSection collapsed) = collapsed
   \<and> toggleSection (toggleSection expanded) = expanded
   \<and> js ''expanded'' \<in> set (sec_classList expanded)
   \<and> btn (toggleSection (toggleSection expanded)) = btn expanded"
proof -
  have h: "has_content (commentaryHtml \<lparr>n = Some (js ''1.2''), type = None, html = None,
      commentaryHtml = Some (js ''<p>note</p>''), apparatusHtml = Some (js ''  '')\<rparr>)"
    by (simp add: has_content_def trim_def js_whitespace_def)
  show ?thesis
    using h
      toggleSection_involution [of "\<lparr>n = Some (js ''1.2''), type = None, html = None,
        commentaryHtml = Some (js ''<p>note</p>''), apparatusHtml = Some (js ''  '')\<rparr>"
        example_parse collapsed]
      toggleSection_involution [of "\<lparr>n = Some (js ''1.2''), type = None, html = None,
        commentaryHtml = Some (js ''<p>note</p>''), apparatusHtml = Some (js ''  '')\<rparr>"
        example_parse expanded]
    by (simp add: expanded_def)
qed

subsection \<open>renderSpecimen\<close>

lemma wits_nonempty: "wits payload \<noteq> []"
  by (auto simp: wits_def fallback_witnesses_def split: option.splits)

text \<open>
  C8. Without \<open>meta\<close>, without a witness array or with an empty one, the witnesses rendered
  are the four fallback entries \<^verbatim>\<open>A\<close>, \<^verbatim>\<open>B\<close>, \<^verbatim>\<open>C\<close> and \<^verbatim>\<open>AI\<close>; a non-empty array of the
  payload is rendered instead. The markup written to the host is the card that holds, in
  order, one entry for each of these witnesses, and in an entry the siglum \<^verbatim>\<open>AI\<close> is written
  \<^verbatim>\<open>AI (ed.)\<close> while any other siglum is written as it is.
\<close>

theorem witness_panel:
  \<open>(meta payload = None
      \<or> (\<exists>m. meta payload = Some m \<and> (witnesses m = None \<or> witnesses m = Some []))
    \<longrightarrow> wits payload =
         [\<lparr>id_w = js ''A'', text_w = Some (js ''Codex A (fict.), saec. XII'')\<rparr>,
          \<lparr>id_w = js ''B'', text_w = Some (js ''Codex B (fict.), saec. XIII'')\<rparr>,
          \<lparr>id_w = js ''C'', text_w = Some (js ''Codex C (fict.), saec. XIV'')\<rparr>,
          \<lparr>id_w = js ''AI'', text_w = Some (js ''Aulus Intellex (ed.)'')\<rparr>])
   \<and> (meta payload = Some m \<and> witnesses m = Some ws \<and> ws \<noteq> [] \<longrightarrow> wits payload = ws)
   \<and> renderSpecimen True payload =
       Card
         (js ''\<newline>    <div class="specimen-card">\<newline>      <div class="specimen-head">SIGLA</div>\<newline>      <dl class="specimen-list">\<newline>        ''
          @ concat
              (map (\<lambda>w.
                      js ''\<newline>          <div class="sig">\<newline>            <dt class="sigla">''
                      @ (if id_w w = js ''AI'' then js ''AI (ed.)'' else id_w w)
                      @ js ''</dt>\<newline>            <dd class="expansion">''
                      @ or_else (text_w w) []
                      @ js ''</dd>\<newline>          </div>'')
                 (wits payload))
          @ js ''\<newline>      </dl>\<newline>    </div>'')\<close>
proof -
  have "renderSpecimen True payload = Card (specimen_card (wits payload))"
    using wits_nonempty[of payload] by (simp add: renderSpecimen_def Let_def)
  moreover have "sig_markup = (\<lambda>w.
                      js ''\<newline>          <div class=\"sig\">\<newline>            <dt class=\"sigla\">''
                      @ (if id_w w = js ''AI'' then js ''AI (ed.)'' else id_w w)
                      @ js ''</dt>\<newline>            <dd class=\"expansion\">''
                      @ or_else (text_w w) []
                      @ js ''</dd>\<newline>          </div>'')"
    by (rule ext) (simp add: sig_markup_def sigla_def)
  ultimately show ?thesis
    by (auto simp: wits_def fallback_witnesses_def specimen_card_def)
qed

text \<open>
  The theorem at a payload without \<open>meta\<close> and at one with an empty witness array, with the
  whole card of the four fallback entries, and at one with the two witnesses \<^verbatim>\<open>AI\<close> and
  \<^verbatim>\<open>P\<close>.
\<close>

theorem witness_panel_witness:
  \<open>renderSpecimen True \<lparr>meta = None, divs = []\<rparr> = Card (js ''\<newline>    <div class="specimen-card">\<newline>      <div class="specimen-head">SIGLA</div>\<newline>      <dl class="specimen-list">\<newline>        \<newline>          <div class="sig">\<newline>            <dt class="sigla">A</dt>\<newline>            <dd class="expansion">Codex A (fict.), saec. XII</dd>\<newline>          </div>\<newline>          <div class="sig">\<newline>            <dt class="sigla">B</dt>\<newline>            <dd class="expansion">Codex B (fict.), saec. XIII</dd>\<newline>          </div>\<newline>          <div class="sig">\<newline>            <dt class="sigla">C</dt>\<newline>            <dd class="expansion">Codex C (fict.), saec. XIV</dd>\<newline>          </div>\<newline>          <div class="sig">\<newline>            <dt class="sigla">AI (ed.)</dt>\<newline>            <dd class="expansion">Aulus Intellex (ed.)</dd>\<newline>          </div>\<newline>      </dl>\<newline>    </div>'')
   \<and> renderSpecimen True
        \<lparr>meta = Some \<lparr>title = None, author = None, witnesses = Some []\<rparr>, divs = []\<rparr>
       = Card (js ''\<newline>    <div class="specimen-card">\<newline>      <div class="specimen-head">SIGLA</div>\<newline>      <dl class="specimen-list">\<newline>        \<newline>          <div class="sig">\<newline>            <dt class="sigla">A</dt>\<newline>            <dd class="expansion">Codex A (fict.), saec. XII</dd>\<newline>          </div>\<newline>          <div class="sig">\<newline>            <dt class="sigla">B</dt>\<newline>            <dd class="expansion">Codex B (fict.), saec. XIII</dd>\<newline>          </div>\<newline>          <div class="sig">\<newline>            <dt class="sigla">C</dt>\<newline>            <dd class="expansion">Codex C (fict.), saec. XIV</dd>\<newline>          </div>\<newline>          <div class="sig">\<newline>            <dt class="sigla">AI (ed.)</dt>\<newline>            <dd class="expansion">Aulus Intellex (ed.)</dd>\<newline>          </div>\<newline>      </dl>\<newline>    </div>'')
   \<and> wits \<lparr>meta = Some \<lparr>title = None, author = None,
                  witnesses = Some [\<lparr>id_w = js ''AI'', text_w = None\<rparr>,
                                    \<lparr>id_w = js ''P'', text_w = Some (js ''Parisinus'')\<rparr>]\<rparr>,
            divs = []\<rparr>
       = [\<lparr>id_w = js ''AI'', text_w = None\<rparr>, \<lparr>id_w = js ''P'', text_w = Some (js ''Parisinus'')\<rparr>]
   \<and> renderSpecimen True
        \<lparr>meta = Some \<lparr>title = None, author = None,
                  witnesses = Some [\<lparr>id_w = js ''AI'', text_w = None\<rparr>,
                                    \<lparr>id_w = js ''P'', text_w = Some (js ''Parisinus'')\<rparr>]\<rparr>,
            divs = []\<rparr>
       = Card (js ''\<newline>    <div class="specimen-card">\<newline>      <div class="specimen-head">SIGLA</div>\<newline>      <dl class="specimen-list">\<newline>        \<newline>          <div class="sig">\<newline>            <dt class="sigla">AI (ed.)</dt>\<newline>            <dd class="expansion"></dd>\<newline>          </div>\<newline>          <div class="sig">\<newline>            <dt class="sigla">P</dt>\<newline>            <dd class="expansion">Parisinus</dd>\<newline>          </div>\<newline>      </dl>\<newline>    </div>'')\<close>
proof -
  note a = witness_panel [of "\<lparr>meta = None, divs = []\<rparr>"
      "\<lparr>title = None, author = None, witnesses = None\<rparr>" "[]"]
  note b = witness_panel [of "\<lparr>meta = Some \<lparr>title = None, author = None, witnesses = Some []\<rparr>, divs = []\<rparr>"
      "\<lparr>title = None, author = None, witnesses = Some []\<rparr>" "[]"]
  note c = witness_panel [of "\<lparr>meta = Some \<lparr>title = None, author = None,
                  witnesses = Some [\<lparr>id_w = js ''AI'', text_w = None\<rparr>,
                                    \<lparr>id_w = js ''P'', text_w = Some (js ''Parisinus'')\<rparr>]\<rparr>,
            divs = []\<rparr>"
      "\<lparr>title = None, author = None,
                  witnesses = Some [\<lparr>id_w = js ''AI'', text_w = None\<rparr>,
                                    \<lparr>id_w = js ''P'', text_w = Some (js ''Parisinus'')\<rparr>]\<rparr>"
      "[\<lparr>id_w = js ''AI'', text_w = None\<rparr>, \<lparr>id_w = js ''P'', text_w = Some (js ''Parisinus'')\<rparr>]"]
  show ?thesis
    using a b c by (simp add: or_else_def)
qed

text \<open>
  C10. The list \<open>wits\<close> is never empty, so \<open>renderSpecimen\<close> never takes the branch that
  clears the host.
\<close>

theorem specimen_never_cleared:
  "wits payload \<noteq> [] \<and> renderSpecimen sidebar payload \<noteq> Cleared"
  using wits_nonempty[of payload] by (simp add: renderSpecimen_def Let_def)

end
